theory Spec2Isabelle
  imports Complex_Main "HOL-Library.Sublist"
begin

section \<open>JavaScript values used by the session tree code\<close>

text \<open>
  Strings are lists of 8-bit character codes, read as the Latin-1 range of JavaScript's
  UTF-16 code units. A JavaScript \<^verbatim>\<open>Map\<close> keeps one entry per key, in the order in
  which the keys were first inserted; it is modelled as an association list that
  \<open>map_set\<close> keeps free of duplicate keys.
\<close>

type_synonym ('k, 'v) js_map = "('k \<times> 'v) list"

fun map_set :: "'k \<Rightarrow> 'v \<Rightarrow> ('k, 'v) js_map \<Rightarrow> ('k, 'v) js_map" where
  "map_set k v [] = [(k, v)]"
| "map_set k v ((k', v') # m) =
     (if k' = k then (k, v) # m else (k', v') # map_set k v m)"

definition map_get :: "('k, 'v) js_map \<Rightarrow> 'k \<Rightarrow> 'v option" where
  "map_get m k = map_of m k"

definition map_has :: "('k, 'v) js_map \<Rightarrow> 'k \<Rightarrow> bool" where
  "map_has m k = (map_of m k \<noteq> None)"

definition map_size :: "('k, 'v) js_map \<Rightarrow> nat" where
  "map_size m = length m"

definition map_keys :: "('k, 'v) js_map \<Rightarrow> 'k list" where
  "map_keys m = map fst m"


section \<open>Data model (types/VideoConfig)\<close>

text \<open>
  The segment payload carries the fields the code under study reads or copies; a JavaScript
  number is an exact real here (no rounding, no NaN), an optional field is an \<open>option\<close>.
\<close>

record video_segment =
  topic :: string
  title :: "string option"
  voiceoverScript :: "string option"
  videoUrl :: "string option"
  renderingStatus :: "string option"
  isQuestionNode :: bool
  description :: "string option"
  embedding :: "real list option"

record tree_node =
  node_id :: string
  segment :: video_segment
  parentId :: "string option"
  childIds :: "string list"
  branchIndex :: int
  branchLabel :: "string option"

record learning_tree =
  nodes :: "(string, tree_node) js_map"
  rootIds :: "string list"
  currentNodeId :: string

record learning_context =
  initialTopic :: string
  historyTopics :: "string list"
  depth :: int
  correctnessPattern :: "bool list"
  preferredStyle :: string
  voiceId :: "string option"

record video_session =
  tree :: learning_tree
  session_context :: learning_context
  sessionId :: string
  startedAt :: string
  lastUpdatedAt :: string

text \<open>The persisted form: the node map is stored as an array of [id, node] pairs.\<close>

record serialized_tree =
  s_nodes :: "(string \<times> tree_node) list"
  s_rootIds :: "string list"
  s_currentNodeId :: string

record serialized_session =
  s_tree :: serialized_tree
  s_context :: learning_context
  s_sessionId :: string
  s_startedAt :: string
  s_lastUpdatedAt :: string

section \<open>Cache resolver (services/cachedSessionService.ts)\<close>

definition CACHED_SESSIONS :: "(string \<times> string) list" where
  "CACHED_SESSIONS =
     [(''Binary Search Trees'',
       ''https://storage.googleapis.com/vid-gen-static/cached/binary-search-trees.json''),
      (''Photosynthesis'',
       ''https://storage.googleapis.com/vid-gen-static/cached/photosynthesis.json''),
      (''Pythagoras Theorem'',
       ''https://storage.googleapis.com/vid-gen-static/cached/pythagoras-theorem.json'')]"

text \<open>
  \<open>CACHED_SESSIONS\<close> is an object literal, so besides its own three keys it has the
  property names every object inherits from \<^verbatim>\<open>Object.prototype\<close>. The operator
  \<^verbatim>\<open>in\<close> and a property read both see them.
\<close>

definition Object_prototype_keys :: "string list" where
  "Object_prototype_keys =
     [''constructor'', ''__defineGetter__'', ''__defineSetter__'', ''hasOwnProperty'',
      ''__lookupGetter__'', ''__lookupSetter__'', ''isPrototypeOf'',
      ''propertyIsEnumerable'', ''toString'', ''valueOf'', ''__proto__'',
      ''toLocaleString'']"



subsection \<open>normalizeText\<close>

text \<open>The class \<^verbatim>\<open>\s\<close> of a JavaScript regular expression, within Latin-1.\<close>

definition is_space :: "char \<Rightarrow> bool" where
  "is_space c = (of_char c \<in> {9, 10, 11, 12, 13, 32, 160 :: nat})"

definition is_lower_az :: "char \<Rightarrow> bool" where
  "is_lower_az c = (97 \<le> (of_char c :: nat) \<and> (of_char c :: nat) \<le> 122)"

definition is_digit :: "char \<Rightarrow> bool" where
  "is_digit c = (48 \<le> (of_char c :: nat) \<and> (of_char c :: nat) \<le> 57)"

definition toLowerCase_char :: "char \<Rightarrow> char" where
  "toLowerCase_char c =
     (let n = (of_char c :: nat)
      in if (65 \<le> n \<and> n \<le> 90) \<or> (192 \<le> n \<and> n \<le> 222 \<and> n \<noteq> 215)
         then char_of (n + 32) else c)"

definition toLowerCase :: "string \<Rightarrow> string" where
  "toLowerCase s = map toLowerCase_char s"

text \<open>\<^verbatim>\<open>.replace(/[^a-z0-9\s]/g, ' ')\<close>\<close>

definition replace_non_alnum :: "string \<Rightarrow> string" where
  "replace_non_alnum s =
     map (\<lambda>c. if is_lower_az c \<or> is_digit c \<or> is_space c then c else CHR '' '') s"

text \<open>\<^verbatim>\<open>.replace(/\s+/g, ' ')\<close>: every maximal run of whitespace becomes one space.\<close>

function collapse_ws :: "string \<Rightarrow> string" where
  "collapse_ws [] = []"
| "collapse_ws (c # cs) =
     (if is_space c then CHR '' '' # collapse_ws (dropWhile is_space cs)
      else c # collapse_ws cs)"
  by pat_completeness auto
termination
  by (relation "measure length") (auto simp: less_Suc_eq_le length_dropWhile_le)

definition trim :: "string \<Rightarrow> string" where
  "trim s = rev (dropWhile is_space (rev (dropWhile is_space s)))"

definition normalizeText :: "string \<Rightarrow> string" where
  "normalizeText text = trim (collapse_ws (replace_non_alnum (toLowerCase text)))"

subsection \<open>matchQuestionToCachedTopic\<close>







subsection \<open>loadCachedSession\<close>

text \<open>
  The value of \<^verbatim>\<open>CACHED_SESSIONS[topic]\<close>: the URL stored under an own key, an
  inherited member of \<^verbatim>\<open>Object.prototype\<close> (a function or an object, always truthy),
  or \<^verbatim>\<open>undefined\<close>.
\<close>

datatype prop_value = PropString string | PropInherited string | PropUndefined

definition lookup_CACHED_SESSIONS :: "string \<Rightarrow> prop_value" where
  "lookup_CACHED_SESSIONS topic_name =
     (case map_of CACHED_SESSIONS topic_name of
        Some url \<Rightarrow> PropString url
      | None \<Rightarrow> if topic_name \<in> set Object_prototype_keys then PropInherited topic_name
                else PropUndefined)"

definition falsy :: "prop_value \<Rightarrow> bool" where
  "falsy v = (v = PropUndefined \<or> v = PropString [])"

text \<open>
  What the network can answer. \<^verbatim>\<open>fetch\<close> rejects, or resolves to a response with its
  \<^verbatim>\<open>ok\<close> flag and status; \<^verbatim>\<open>response.json()\<close> rejects on text that is not JSON,
  and a JSON value without the shape of a session makes the reconstruction raise a
  TypeError.
\<close>

datatype json_body = InvalidJson | WrongShape | SessionJson serialized_session

datatype fetch_outcome = FetchRejected | Response bool nat json_body

datatype js_error = NetworkError | SyntaxError | TypeError

definition reconstruct_node :: "tree_node \<Rightarrow> tree_node" where
  "reconstruct_node nodeData =
     \<lparr> node_id = node_id nodeData,
       segment = (segment nodeData)
         \<lparr> embedding := embedding (segment nodeData),
           description := description (segment nodeData) \<rparr>,
       parentId = parentId nodeData,
       childIds = childIds nodeData,
       branchIndex = branchIndex nodeData,
       branchLabel = branchLabel nodeData \<rparr>"

definition deserialize_nodes :: "(string \<times> tree_node) list \<Rightarrow> (string, tree_node) js_map" where
  "deserialize_nodes entries =
     fold (\<lambda>(nodeId, nodeData) m. map_set nodeId (reconstruct_node nodeData) m) entries []"

definition deserialize_tree :: "serialized_tree \<Rightarrow> learning_tree" where
  "deserialize_tree st =
     \<lparr> nodes = deserialize_nodes (s_nodes st),
       rootIds = s_rootIds st,
       currentNodeId = s_currentNodeId st \<rparr>"

definition deserialize_session :: "serialized_session \<Rightarrow> video_session" where
  "deserialize_session data =
     \<lparr> tree = deserialize_tree (s_tree data),
       session_context = s_context data,
       sessionId = s_sessionId data,
       startedAt = s_startedAt data,
       lastUpdatedAt = s_lastUpdatedAt data \<rparr>"

text \<open>The body of the \<^verbatim>\<open>try\<close> block: \<open>Inl\<close> is an exception raised inside it.\<close>

definition load_try_block ::
  "(prop_value \<Rightarrow> fetch_outcome) \<Rightarrow> prop_value \<Rightarrow> js_error + video_session option" where
  "load_try_block fetch sessionPath =
     (case fetch sessionPath of
        FetchRejected \<Rightarrow> Inl NetworkError
      | Response ok status body \<Rightarrow>
          if \<not> ok then Inr None
          else (case body of
                  InvalidJson \<Rightarrow> Inl SyntaxError
                | WrongShape \<Rightarrow> Inl TypeError
                | SessionJson data \<Rightarrow> Inr (Some (deserialize_session data))))"

text \<open>
  The whole function, with its \<^verbatim>\<open>catch\<close>: \<open>Inl\<close> would be an exception that
  escapes to the caller, \<open>Inr None\<close> is the returned \<^verbatim>\<open>null\<close>.
\<close>

definition loadCachedSession ::
  "(prop_value \<Rightarrow> fetch_outcome) \<Rightarrow> string \<Rightarrow> js_error + video_session option" where
  "loadCachedSession fetch topic_name =
     (let sessionPath = lookup_CACHED_SESSIONS topic_name
      in if falsy sessionPath then Inr None
         else (case load_try_block fetch sessionPath of
                 Inl error \<Rightarrow> Inr None
               | Inr result \<Rightarrow> Inr result))"

subsection \<open>Structural invariants of a tree\<close>

definition childIds_exist :: "learning_tree \<Rightarrow> bool" where
  "childIds_exist t =
     list_all (\<lambda>(k, n). list_all (map_has (nodes t)) (childIds n)) (nodes t)"

definition listed_once_in_parent :: "learning_tree \<Rightarrow> bool" where
  "listed_once_in_parent t =
     list_all (\<lambda>(k, n). case parentId n of
                  None \<Rightarrow> True
                | Some p \<Rightarrow> (case map_get (nodes t) p of
                              None \<Rightarrow> False
                            | Some pn \<Rightarrow> count_list (childIds pn) k = 1)) (nodes t)"

definition roots_exact :: "learning_tree \<Rightarrow> bool" where
  "roots_exact t =
     (set (rootIds t) = set (map fst (filter (\<lambda>(k, n). parentId n = None) (nodes t))))"

definition current_exists :: "learning_tree \<Rightarrow> bool" where
  "current_exists t = map_has (nodes t) (currentNodeId t)"

definition structural_invariants :: "learning_tree \<Rightarrow> bool" where
  "structural_invariants t =
     (childIds_exist t \<and> listed_once_in_parent t \<and> roots_exact t \<and> current_exists t)"

section \<open>Session restore on mount (pages/HomePage.tsx)\<close>

text \<open>
  The effect that runs on mount. Its argument is what \<^verbatim>\<open>loadVideoSession()\<close> returned;
  its result is the session handed to \<^verbatim>\<open>setCachedSession\<close>, or \<open>None\<close> when the
  effect returns without restoring anything.
\<close>

definition load_session_effect :: "video_session option \<Rightarrow> video_session option" where
  "load_session_effect loaded =
     (case loaded of
        None \<Rightarrow> None
      | Some cached \<Rightarrow>
          if map_size (nodes (tree cached)) > 0 then
            (let isValidNode =
                   (currentNodeId (tree cached) \<noteq> []
                    \<and> map_has (nodes (tree cached)) (currentNodeId (tree cached)))
             in if \<not> isValidNode then
                  (case rootIds (tree cached) of
                     r # rs \<Rightarrow> Some (cached\<lparr>tree := (tree cached)\<lparr>currentNodeId := r\<rparr>\<rparr>)
                   | [] \<Rightarrow> None)
                else Some cached)
          else None)"

section \<open>Concrete sessions and responses\<close>

text \<open>Inputs at which the theorems below are evaluated.\<close>

definition sample_segment :: video_segment where
  "sample_segment =
     \<lparr> topic = ''Photosynthesis'', title = Some ''Light reactions'',
       voiceoverScript = Some ''Plants capture light.'',
       videoUrl = Some ''https://example.org/light.mp4'',
       renderingStatus = Some ''completed'', isQuestionNode = False,
       description = Some ''How light is captured'', embedding = Some [1, 0] \<rparr>"

definition sample_root :: tree_node where
  "sample_root =
     \<lparr> node_id = ''n1'', segment = sample_segment, parentId = None,
       childIds = [''n2''], branchIndex = 0, branchLabel = None \<rparr>"

definition sample_child :: tree_node where
  "sample_child =
     \<lparr> node_id = ''n2'',
       segment = sample_segment\<lparr>title := Some ''Calvin cycle'', embedding := Some [0, 1]\<rparr>,
       parentId = Some ''n1'', childIds = [], branchIndex = 0,
       branchLabel = Some ''question'' \<rparr>"

definition sample_context :: learning_context where
  "sample_context =
     \<lparr> initialTopic = ''Photosynthesis'', historyTopics = [''Photosynthesis''], depth = 2,
       correctnessPattern = [], preferredStyle = ''mixed'', voiceId = None \<rparr>"

definition sample_serialized :: serialized_session where
  "sample_serialized =
     \<lparr> s_tree = \<lparr> s_nodes = [(''n1'', sample_root), (''n2'', sample_child)],
                  s_rootIds = [''n1''], s_currentNodeId = ''n1'' \<rparr>,
       s_context = sample_context, s_sessionId = ''cached_1'',
       s_startedAt = ''2024-11-09'', s_lastUpdatedAt = ''2024-11-09'' \<rparr>"

text \<open>The same id twice in the node array.\<close>

definition duplicate_ids_serialized :: serialized_session where
  "duplicate_ids_serialized =
     sample_serialized
       \<lparr> s_tree := \<lparr> s_nodes = [(''n1'', sample_root), (''n1'', sample_child)],
                    s_rootIds = [''n1''], s_currentNodeId = ''n1'' \<rparr> \<rparr>"

text \<open>
  A node array whose only node names a child that is not stored, with no root listed and
  a current node that is not stored either.
\<close>

definition malformed_serialized :: serialized_session where
  "malformed_serialized =
     sample_serialized
       \<lparr> s_tree := \<lparr> s_nodes = [(''n1'', sample_root)],
                    s_rootIds = [], s_currentNodeId = ''gone'' \<rparr> \<rparr>"

definition always_respond :: "fetch_outcome \<Rightarrow> prop_value \<Rightarrow> fetch_outcome" where
  "always_respond outcome request = outcome"

definition sample_session :: video_session where
  "sample_session = deserialize_session sample_serialized"

text \<open>A restored session whose stored current node is no longer in the tree.\<close>

definition stale_session :: video_session where
  "stale_session = sample_session\<lparr>tree := (tree sample_session)\<lparr>currentNodeId := ''deleted''\<rparr>\<rparr>"

text \<open>The entry handled by \<^verbatim>\<open>nodes.set(nodeId, {...})\<close> in the loop of the loader.\<close>

definition store_entry ::
  "string \<times> tree_node \<Rightarrow> (string, tree_node) js_map \<Rightarrow> (string, tree_node) js_map" where
  "store_entry = (\<lambda>(nodeId, nodeData) m. map_set nodeId (reconstruct_node nodeData) m)"

section \<open>Navigation engine (types/TreeState)\<close>











section \<open>Node carousel (components/NodeCarousel.tsx)\<close>




section \<open>Semantic search (services/searchService.ts)\<close>





record search_result =
  nodeId :: string
  result_segment :: video_segment
  similarity :: real
  result_description :: string















section \<open>Tree store and generation orchestrator\<close>

text \<open>
  Modelled from the spec: the controller that creates generation jobs and commits their
  results (controllers/VideoController) and the tree mutations of types/TreeState are not
  among the sources. The definitions of this section follow sections 3, 4.1, 4.4, 5 and 7
  of the spec.
\<close>

datatype store_error = ParentNotFound | CommitFailed

text \<open>
  Modelled from the spec (3): the generation job of the missing controller, with its kind,
  its attach point, its prompt, its status, its creation time and the ids of the nodes it
  committed.
\<close>

datatype job_kind = InitialTopic | NewTopic | QuestionBranch | QuizRemediation | ClosingReflection

datatype job_status = Pending | Generating | Completed | Failed

record segment_descriptor =
  media_reference :: "string option"
  descriptor_title :: "string option"
  script_text :: string

record generation_job =
  kind :: job_kind
  targetParentId :: "string option"
  prompt_text :: string
  prompt_image :: "string option"
  job_status :: job_status
  createdAt :: nat
  resultNodeIds :: "string list"
  failure_reason :: "string option"

text \<open>
  Modelled from the spec (2, 4.4): the state of the missing controller is the tree store,
  the registry of the jobs it created and the list of jobs shown to the user.
\<close>

record orchestrator =
  store :: learning_tree
  jobs :: "(nat, generation_job) js_map"
  active_jobs :: "nat list"

text \<open>
  Modelled from the spec: node ids are unique. A new id is the first of the names node_0,
  node_1, ... that is not a key of the node map.
\<close>

function decimal :: "nat \<Rightarrow> string" where
  "decimal n =
     (if n < 10 then [char_of (48 + n)] else decimal (n div 10) @ [char_of (48 + n mod 10)])"
  by pat_completeness auto
termination
  by (relation "measure id") auto

declare decimal.simps [simp del]

definition node_name :: "nat \<Rightarrow> string" where
  "node_name n = ''node_'' @ decimal n"

definition fresh_node_id :: "learning_tree \<Rightarrow> string" where
  "fresh_node_id t =
     (case find (\<lambda>c. \<not> map_has (nodes t) c)
             (map node_name [0 ..< Suc (map_size (nodes t))]) of
        Some c \<Rightarrow> c
      | None \<Rightarrow> node_name (Suc (map_size (nodes t))))"

text \<open>
  Modelled from the spec (4.1): createRoot inserts a node with no parent and appends it to
  rootIds.
\<close>

definition createRoot :: "video_segment \<Rightarrow> learning_tree \<Rightarrow> string \<times> learning_tree" where
  "createRoot seg t =
     (let nid = fresh_node_id t;
          root = \<lparr> node_id = nid, segment = seg, parentId = None, childIds = [],
                   branchIndex = int (length (rootIds t)), branchLabel = None \<rparr>
      in (nid, t\<lparr>nodes := map_set nid root (nodes t), rootIds := rootIds t @ [nid]\<rparr>))"

text \<open>
  Modelled from the spec (4.1): appendChild fails with NotFound if the parent is absent;
  it assigns branchIndex = len(parent.childIds) and adds the child and the parent's link
  in one step.
\<close>

definition appendChild ::
  "string \<Rightarrow> video_segment \<Rightarrow> learning_tree \<Rightarrow> store_error + string \<times> learning_tree" where
  "appendChild parent seg t =
     (case map_get (nodes t) parent of
        None \<Rightarrow> Inl ParentNotFound
      | Some p \<Rightarrow>
          (let nid = fresh_node_id t;
               child = \<lparr> node_id = nid, segment = seg, parentId = Some parent, childIds = [],
                        branchIndex = int (length (childIds p)), branchLabel = None \<rparr>
           in Inr (nid, t\<lparr>nodes := map_set nid child
                               (map_set parent (p\<lparr>childIds := childIds p @ [nid]\<rparr>) (nodes t))\<rparr>)))"

text \<open>
  Modelled from the spec (6): the missing controller turns a segment descriptor of the
  service (media reference, optional title, script text) into the payload of a node.
\<close>

definition segment_of_descriptor :: "string \<Rightarrow> segment_descriptor \<Rightarrow> video_segment" where
  "segment_of_descriptor topic_name d =
     \<lparr> topic = topic_name, title = descriptor_title d, voiceoverScript = Some (script_text d),
       videoUrl = media_reference d, renderingStatus = Some ''completed'',
       isQuestionNode = False, description = None, embedding = None \<rparr>"

text \<open>
  Modelled from the spec (4.1, 7): the segments of one job are inserted as a linear chain
  below the attach point (as a new root when there is none). A descriptor without media
  reference is malformed and fails the commit, as does an absent parent. The insertion
  works on its own copy of the tree, which is returned only when every segment was
  inserted.
\<close>

fun insert_chain ::
  "learning_tree \<Rightarrow> string option \<Rightarrow> string \<Rightarrow> segment_descriptor list
   \<Rightarrow> store_error + string list \<times> learning_tree" where
  "insert_chain t parent topic_name [] = Inr ([], t)"
| "insert_chain t parent topic_name (d # ds) =
     (if media_reference d = None then Inl CommitFailed
      else
        (case (case parent of
                 None \<Rightarrow> Inr (createRoot (segment_of_descriptor topic_name d) t)
               | Some p \<Rightarrow> appendChild p (segment_of_descriptor topic_name d) t) of
           Inl e \<Rightarrow> Inl e
         | Inr (nid, t') \<Rightarrow>
             (case insert_chain t' (Some nid) topic_name ds of
                Inl e \<Rightarrow> Inl e
              | Inr (ids, t'') \<Rightarrow> Inr (nid # ids, t''))))"

text \<open>
  Modelled from the spec (4.1, 8): the commit step of the missing controller. An empty
  list of segments is malformed; the chain of an initial topic becomes the current node.
\<close>

definition commit_job ::
  "learning_tree \<Rightarrow> generation_job \<Rightarrow> segment_descriptor list
   \<Rightarrow> store_error + string list \<times> learning_tree" where
  "commit_job t job ds =
     (if ds = [] then Inl CommitFailed
      else (case insert_chain t (targetParentId job) (prompt_text job) ds of
              Inl e \<Rightarrow> Inl e
            | Inr (ids, t') \<Rightarrow>
                Inr (ids, if kind job = InitialTopic then t'\<lparr>currentNodeId := hd ids\<rparr> else t')))"

text \<open>
  Modelled from the spec (4.4, 5): what can happen to a job. A job is submitted, dispatched
  to the external service, may report progress, and ends with a terminal event of the
  service (a list of segment descriptors or an error), or with a cancellation. Dismissing
  a job only removes it from the list shown to the user.
\<close>

datatype event =
    Submit nat job_kind "string option" string "string option" nat
  | Dispatch nat
  | Progress nat string nat
  | Complete nat "segment_descriptor list"
  | Fail nat string
  | Cancel nat
  | Dismiss nat

text \<open>Modelled from the spec (4.4): the job that an event of the missing controller concerns.\<close>

fun job_of :: "event \<Rightarrow> nat" where
  "job_of (Submit j k target text picture time) = j"
| "job_of (Dispatch j) = j"
| "job_of (Progress j stage percent) = j"
| "job_of (Complete j ds) = j"
| "job_of (Fail j reason) = j"
| "job_of (Cancel j) = j"
| "job_of (Dismiss j) = j"

text \<open>Modelled from the spec (3): the missing controller records a job under its id.\<close>

definition set_job :: "nat \<Rightarrow> generation_job \<Rightarrow> orchestrator \<Rightarrow> orchestrator" where
  "set_job j job s = s\<lparr>jobs := map_set j job (jobs s)\<rparr>"

text \<open>
  Modelled from the spec (4.4): the missing controller marks a job failed with a
  human-readable reason.
\<close>

definition mark_failed :: "string \<Rightarrow> generation_job \<Rightarrow> generation_job" where
  "mark_failed reason job = job\<lparr>job_status := Failed, failure_reason := Some reason\<rparr>"

text \<open>
  Modelled from the spec (4.4): pending -> generating -> completed | failed. Completed
  occurs only after a successful commit of all resulting nodes; failed occurs on an error
  of the service, on a commit failure, or on a cancellation, and leaves the tree as it
  is. An event for a job that is unknown or already terminal changes nothing.
\<close>

fun on_event :: "orchestrator \<Rightarrow> nat \<Rightarrow> generation_job \<Rightarrow> event \<Rightarrow> orchestrator" where
  "on_event s j job (Dispatch j') =
     (if job_status job = Pending then set_job j (job\<lparr>job_status := Generating\<rparr>) s else s)"
| "on_event s j job (Progress j' stage percent) = s"
| "on_event s j job (Complete j' ds) =
     (if job_status job = Generating then
        (case commit_job (store s) job ds of
           Inl e \<Rightarrow> set_job j (mark_failed ''commit failed'' job) s
         | Inr (ids, t') \<Rightarrow>
             set_job j (job\<lparr>job_status := Completed, resultNodeIds := ids\<rparr>) (s\<lparr>store := t'\<rparr>))
      else s)"
| "on_event s j job (Fail j' reason) =
     (if job_status job = Pending \<or> job_status job = Generating
      then set_job j (mark_failed reason job) s else s)"
| "on_event s j job (Cancel j') =
     (if job_status job = Pending \<or> job_status job = Generating
      then set_job j (mark_failed ''cancelled'' job) s else s)"
| "on_event s j job (Dismiss j') = s\<lparr>active_jobs := removeAll j (active_jobs s)\<rparr>"
| "on_event s j job (Submit j' k target text picture time) = s"

text \<open>
  Modelled from the spec (4.4): one event handled by the missing controller. Submitting
  creates a pending job and lists it; any other event goes to the job it names.
\<close>

definition step :: "orchestrator \<Rightarrow> event \<Rightarrow> orchestrator" where
  "step s e =
     (case map_get (jobs s) (job_of e) of
        Some job \<Rightarrow> on_event s (job_of e) job e
      | None \<Rightarrow>
          (case e of
             Submit j k target text picture time \<Rightarrow>
               (set_job j \<lparr> kind = k, targetParentId = target, prompt_text = text,
                            prompt_image = picture, job_status = Pending, createdAt = time,
                            resultNodeIds = [], failure_reason = None \<rparr> s)
                 \<lparr>active_jobs := active_jobs s @ [j]\<rparr>
           | _ \<Rightarrow> s))"

text \<open>
  Modelled from the spec (5): the missing controller handles events one at a time, each to
  completion, in the order in which they arrive.
\<close>

definition run :: "orchestrator \<Rightarrow> event list \<Rightarrow> orchestrator" where
  "run s evs = foldl step s evs"

text \<open>Modelled from the spec (3): the status and the committed nodes of a job, by id.\<close>

definition status_of :: "orchestrator \<Rightarrow> nat \<Rightarrow> job_status option" where
  "status_of s j = map_option job_status (map_get (jobs s) j)"

definition results_of :: "orchestrator \<Rightarrow> nat \<Rightarrow> string list" where
  "results_of s j = (case map_get (jobs s) j of None \<Rightarrow> [] | Some job \<Rightarrow> resultNodeIds job)"

text \<open>
  An orchestrator that holds the sample tree, two well-formed descriptors and a malformed
  one, and three histories of job 1, a question branch below node n2: the service fails
  after two progress events; the service delivers a list whose second descriptor is
  malformed; the job is cancelled. In each history job 2, a new topic, completes.
\<close>

definition sample_orchestrator :: orchestrator where
  "sample_orchestrator = \<lparr> store = tree sample_session, jobs = [], active_jobs = [] \<rparr>"

definition good_descriptor :: segment_descriptor where
  "good_descriptor =
     \<lparr> media_reference = Some ''https://example.org/a.mp4'', descriptor_title = Some ''Part'',
       script_text = ''Narration'' \<rparr>"

definition malformed_descriptor :: segment_descriptor where
  "malformed_descriptor = good_descriptor\<lparr>media_reference := None\<rparr>"

definition service_failure_history :: "event list" where
  "service_failure_history =
     [Submit 1 QuestionBranch (Some ''n2'') ''Why is it green?'' None 10,
      Submit 2 NewTopic None ''Ancient Rome'' None 11,
      Dispatch 1, Dispatch 2,
      Progress 1 ''planning'' 10,
      Complete 2 [good_descriptor, good_descriptor],
      Progress 1 ''rendering'' 60,
      Fail 1 ''service unavailable'']"

definition commit_failure_history :: "event list" where
  "commit_failure_history =
     [Submit 1 QuestionBranch (Some ''n2'') ''Why is it green?'' None 10,
      Submit 2 NewTopic None ''Ancient Rome'' None 11,
      Dispatch 1, Dispatch 2,
      Complete 1 [good_descriptor, malformed_descriptor],
      Complete 2 [good_descriptor, good_descriptor]]"

definition cancelled_history :: "event list" where
  "cancelled_history =
     [Submit 1 QuestionBranch (Some ''n2'') ''Why is it green?'' None 10,
      Dispatch 1,
      Cancel 1,
      Complete 1 [good_descriptor]]"

section \<open>Verified properties\<close>

subsection \<open>The JavaScript Map model\<close>

lemma map_of_map_set: "map_of (map_set k v m) = (map_of m)(k \<mapsto> v)"
  by (induction m) (auto simp: fun_eq_iff)

lemma keys_map_set: "fst ` set (map_set k v m) = insert k (fst ` set m)"
proof -
  have "fst ` set (map_set k v m) = dom (map_of (map_set k v m))"
    by (simp add: dom_map_of_conv_image_fst)
  also have "\<dots> = insert k (dom (map_of m))"
    by (simp add: map_of_map_set)
  finally show ?thesis by (simp add: dom_map_of_conv_image_fst)
qed

lemma distinct_map_set: "distinct (map fst m) \<Longrightarrow> distinct (map fst (map_set k v m))"
  by (induction m) (auto simp: keys_map_set)

lemma map_set_fresh: "k \<notin> fst ` set m \<Longrightarrow> map_set k v m = m @ [(k, v)]"
  by (induction m) auto

subsection \<open>Deserialization\<close>

lemma reconstruct_node_id: "reconstruct_node n = n"
  by (simp add: reconstruct_node_def)

lemma keys_store_entry: "fst ` set (store_entry e acc) = insert (fst e) (fst ` set acc)"
  by (cases e) (simp add: store_entry_def keys_map_set)

lemma fold_store_distinct:
  "distinct (map fst acc) \<Longrightarrow> distinct (map fst (fold store_entry entries acc))"
  by (induction entries arbitrary: acc) (auto simp: store_entry_def distinct_map_set)

lemma fold_store_keys:
  "fst ` set (fold store_entry entries acc) = fst ` set acc \<union> fst ` set entries"
  by (induction entries arbitrary: acc) (simp_all add: keys_store_entry)

lemma fold_store_lookup:
  "map_of (fold store_entry entries acc) = map_of acc ++ map_of (rev entries)"
  by (induction entries arbitrary: acc)
     (auto simp: store_entry_def map_of_map_set reconstruct_node_id map_add_def fun_eq_iff
           split: option.splits)

lemma fold_store_fresh:
  "distinct (map fst acc @ map fst entries) \<Longrightarrow> fold store_entry entries acc = acc @ entries"
  by (induction entries arbitrary: acc)
     (auto simp: store_entry_def map_set_fresh reconstruct_node_id)

lemma deserialize_nodes_fold: "deserialize_nodes entries = fold store_entry entries []"
  by (simp add: deserialize_nodes_def store_entry_def)

lemma deserialize_nodes_distinct: "distinct (map fst (deserialize_nodes entries))"
  by (simp add: deserialize_nodes_fold fold_store_distinct)

lemma deserialize_nodes_keys: "fst ` set (deserialize_nodes entries) = fst ` set entries"
  by (simp add: deserialize_nodes_fold fold_store_keys)

lemma deserialize_nodes_lookup: "map_of (deserialize_nodes entries) = map_of (rev entries)"
  by (simp add: deserialize_nodes_fold fold_store_lookup)

lemma deserialize_nodes_same:
  "distinct (map fst entries) \<Longrightarrow> deserialize_nodes entries = entries"
  by (simp add: deserialize_nodes_fold fold_store_fresh)

lemma loadCachedSession_parsed:
  assumes "\<not> falsy (lookup_CACHED_SESSIONS t)"
    and "fetch (lookup_CACHED_SESSIONS t) = Response True status (SessionJson data)"
  shows "loadCachedSession fetch t = Inr (Some (deserialize_session data))"
  using assms by (simp add: loadCachedSession_def load_try_block_def Let_def)

lemma sample_response:
  "always_respond (Response True 200 (SessionJson data)) (lookup_CACHED_SESSIONS t)
     = Response True 200 (SessionJson data)"
  by (simp add: always_respond_def)

lemma photosynthesis_has_entry: "\<not> falsy (lookup_CACHED_SESSIONS ''Photosynthesis'')"
  by code_simp

text \<open>
  C3 (as amended): when the fetch succeeds and the body parses to a serialized session,
  loadCachedSession returns a session whose node map has exactly one entry per distinct id
  of the serialized node array; the entry of an id is the node of the last pair with that
  id, equal to it field by field (id, parentId, childIds, branchIndex, branchLabel and
  the whole segment, embedding and description included). When the ids of the array are
  distinct the node map is the array itself, one entry per pair in the same order.
  rootIds and currentNodeId are the serialized values.
\<close>

theorem loadCachedSession_reconstructs_nodes:
  assumes "\<not> falsy (lookup_CACHED_SESSIONS t)"
    and "fetch (lookup_CACHED_SESSIONS t) = Response True status (SessionJson data)"
  shows "\<exists>session. loadCachedSession fetch t = Inr (Some session)
     \<and> distinct (map_keys (nodes (tree session)))
     \<and> set (map_keys (nodes (tree session))) = set (map fst (s_nodes (s_tree data)))
     \<and> (\<forall>k. map_get (nodes (tree session)) k = map_of (rev (s_nodes (s_tree data))) k)
     \<and> (distinct (map fst (s_nodes (s_tree data)))
          \<longrightarrow> nodes (tree session) = s_nodes (s_tree data))
     \<and> rootIds (tree session) = s_rootIds (s_tree data)
     \<and> currentNodeId (tree session) = s_currentNodeId (s_tree data)"
proof -
  from assms have "loadCachedSession fetch t = Inr (Some (deserialize_session data))"
    by (rule loadCachedSession_parsed)
  then show ?thesis
    by (simp add: deserialize_session_def deserialize_tree_def map_keys_def map_get_def
        deserialize_nodes_distinct deserialize_nodes_keys deserialize_nodes_lookup
        deserialize_nodes_same)
qed

text \<open>
  The theorem at the two-node sample session served for the topic Photosynthesis: both
  pairs arrive in the node map, child links, labels and embeddings included.
\<close>

theorem loadCachedSession_reconstructs_nodes_witness:
  "\<not> falsy (lookup_CACHED_SESSIONS ''Photosynthesis'')
   \<and> (\<exists>session.
        loadCachedSession (always_respond (Response True 200 (SessionJson sample_serialized)))
          ''Photosynthesis'' = Inr (Some session)
        \<and> nodes (tree session) = [(''n1'', sample_root), (''n2'', sample_child)]
        \<and> map_get (nodes (tree session)) ''n2'' = Some sample_child
        \<and> rootIds (tree session) = [''n1'']
        \<and> currentNodeId (tree session) = ''n1'')"
proof -
  have d: "distinct (map fst (s_nodes (s_tree sample_serialized)))"
    by code_simp
  have n: "s_nodes (s_tree sample_serialized) = [(''n1'', sample_root), (''n2'', sample_child)]"
    by (simp add: sample_serialized_def)
  have r: "s_rootIds (s_tree sample_serialized) = [''n1'']"
    "s_currentNodeId (s_tree sample_serialized) = ''n1''"
    by (simp_all add: sample_serialized_def)
  from loadCachedSession_reconstructs_nodes
    [where t = "''Photosynthesis''" and status = 200 and data = sample_serialized
       and fetch = "always_respond (Response True 200 (SessionJson sample_serialized))",
     OF photosynthesis_has_entry sample_response]
  obtain session where
    "loadCachedSession (always_respond (Response True 200 (SessionJson sample_serialized)))
       ''Photosynthesis'' = Inr (Some session)"
    "\<forall>k. map_get (nodes (tree session)) k = map_of (rev (s_nodes (s_tree sample_serialized))) k"
    "distinct (map fst (s_nodes (s_tree sample_serialized)))
       \<longrightarrow> nodes (tree session) = s_nodes (s_tree sample_serialized)"
    "rootIds (tree session) = s_rootIds (s_tree sample_serialized)"
    "currentNodeId (tree session) = s_currentNodeId (s_tree sample_serialized)"
    by blast
  with d n r photosynthesis_has_entry show ?thesis
    by (intro conjI exI [of _ session]) simp_all
qed

text \<open>
  C3 as stated fails when an id occurs twice in the fetched node array: the array has two
  pairs, the returned node map has one entry, and the node of the first pair is gone.
\<close>

theorem loadCachedSession_duplicate_ids_counterexample:
  "loadCachedSession (always_respond (Response True 200 (SessionJson duplicate_ids_serialized)))
      ''Photosynthesis'' = Inr (Some (deserialize_session duplicate_ids_serialized))
   \<and> length (s_nodes (s_tree duplicate_ids_serialized)) = 2
   \<and> map_size (nodes (tree (deserialize_session duplicate_ids_serialized))) = 1
   \<and> map_get (nodes (tree (deserialize_session duplicate_ids_serialized))) ''n1''
       = Some sample_child
   \<and> sample_child \<noteq> sample_root"
  by code_simp

text \<open>
  C7 (as amended): loadCachedSession neither checks nor repairs the fetched tree. For a
  serialized node array with distinct ids, the tree it returns satisfies the structural
  invariants (every childIds entry is a key of the node map, every node with a parentId
  occurs exactly once in that parent's childIds, rootIds holds exactly the nodes without
  parentId, currentNodeId is a key of the node map) exactly when the serialized tree
  satisfies them.
\<close>

theorem loadCachedSession_keeps_invariants:
  assumes "\<not> falsy (lookup_CACHED_SESSIONS t)"
    and "fetch (lookup_CACHED_SESSIONS t) = Response True status (SessionJson data)"
    and "distinct (map fst (s_nodes (s_tree data)))"
  shows "\<exists>session. loadCachedSession fetch t = Inr (Some session)
     \<and> (structural_invariants (tree session)
          \<longleftrightarrow> structural_invariants
                \<lparr> nodes = s_nodes (s_tree data), rootIds = s_rootIds (s_tree data),
                  currentNodeId = s_currentNodeId (s_tree data) \<rparr>)"
proof -
  from assms(1,2) have "loadCachedSession fetch t = Inr (Some (deserialize_session data))"
    by (rule loadCachedSession_parsed)
  moreover have "tree (deserialize_session data)
      = \<lparr> nodes = s_nodes (s_tree data), rootIds = s_rootIds (s_tree data),
          currentNodeId = s_currentNodeId (s_tree data) \<rparr>"
    using assms(3) by (simp add: deserialize_session_def deserialize_tree_def deserialize_nodes_same)
  ultimately show ?thesis by simp
qed

text \<open>
  The theorem at the well-formed sample session: its serialized tree satisfies the
  invariants, and so does the tree that is returned.
\<close>

theorem loadCachedSession_keeps_invariants_witness:
  "\<not> falsy (lookup_CACHED_SESSIONS ''Photosynthesis'')
   \<and> distinct (map fst (s_nodes (s_tree sample_serialized)))
   \<and> (\<exists>session.
        loadCachedSession (always_respond (Response True 200 (SessionJson sample_serialized)))
          ''Photosynthesis'' = Inr (Some session)
        \<and> structural_invariants (tree session))"
proof -
  have d: "distinct (map fst (s_nodes (s_tree sample_serialized)))"
    by code_simp
  have i: "structural_invariants
             \<lparr> nodes = s_nodes (s_tree sample_serialized),
               rootIds = s_rootIds (s_tree sample_serialized),
               currentNodeId = s_currentNodeId (s_tree sample_serialized) \<rparr>"
    by code_simp
  from loadCachedSession_keeps_invariants
    [where t = "''Photosynthesis''" and status = 200 and data = sample_serialized
       and fetch = "always_respond (Response True 200 (SessionJson sample_serialized))",
     OF photosynthesis_has_entry sample_response d] i
  have "\<exists>session.
        loadCachedSession (always_respond (Response True 200 (SessionJson sample_serialized)))
          ''Photosynthesis'' = Inr (Some session)
        \<and> structural_invariants (tree session)"
    by blast
  with d photosynthesis_has_entry show ?thesis by blast
qed

text \<open>
  C7 as stated fails: a fetched node array whose only node lists a child that is not
  stored, with an empty rootIds and a currentNodeId that is not stored, is returned as it
  is, and the returned tree violates the invariants.
\<close>

theorem loadCachedSession_malformed_counterexample:
  "loadCachedSession (always_respond (Response True 200 (SessionJson malformed_serialized)))
      ''Photosynthesis'' = Inr (Some (deserialize_session malformed_serialized))
   \<and> \<not> childIds_exist (tree (deserialize_session malformed_serialized))
   \<and> \<not> roots_exact (tree (deserialize_session malformed_serialized))
   \<and> \<not> current_exists (tree (deserialize_session malformed_serialized))
   \<and> \<not> structural_invariants (tree (deserialize_session malformed_serialized))"
  by code_simp



subsection \<open>Topic lookup and matching\<close>



subsection \<open>The normal form produced by normalizeText\<close>

lemma collapse_ws_chars:
  "c \<in> set (collapse_ws s) \<Longrightarrow> c = CHR '' '' \<or> (c \<in> set s \<and> \<not> is_space c)"
proof (induction s rule: collapse_ws.induct)
  case 1
  then show ?case by simp
next
  case (2 x xs)
  show ?case
  proof (cases "is_space x")
    case True
    with "2.prems" have "c = CHR '' '' \<or> c \<in> set (collapse_ws (dropWhile is_space xs))"
      by auto
    with "2.IH"(1) [OF True] show ?thesis
      by (auto dest: set_dropWhileD)
  next
    case False
    with "2.prems" have "c = x \<or> c \<in> set (collapse_ws xs)" by auto
    with "2.IH"(2) [OF False] False show ?thesis by auto
  qed
qed

lemma replace_non_alnum_chars:
  "c \<in> set (replace_non_alnum s) \<Longrightarrow> is_lower_az c \<or> is_digit c \<or> is_space c"
  by (auto simp: replace_non_alnum_def is_space_def)

lemma trim_split: "\<exists>front rest. s = front @ trim s @ rest"
proof -
  have "dropWhile is_space s
      = rev (dropWhile is_space (rev (dropWhile is_space s)))
        @ rev (takeWhile is_space (rev (dropWhile is_space s)))"
    by (metis rev_append rev_rev_ident takeWhile_dropWhile_id)
  then have "s = takeWhile is_space s @ trim s
        @ rev (takeWhile is_space (rev (dropWhile is_space s)))"
    by (metis takeWhile_dropWhile_id trim_def)
  then show ?thesis by blast
qed

lemma trim_ends:
  assumes "trim s \<noteq> []"
  shows "\<not> is_space (hd (trim s)) \<and> \<not> is_space (last (trim s))"
proof -
  let ?d = "dropWhile is_space s"
  have e: "?d = trim s @ rev (takeWhile is_space (rev ?d))"
    by (metis rev_append rev_rev_ident takeWhile_dropWhile_id trim_def)
  with assms have "?d \<noteq> []" by (metis append_is_Nil_conv)
  then have "\<not> is_space (hd ?d)" by (rule hd_dropWhile)
  moreover from e assms have "hd ?d = hd (trim s)" by (metis hd_append2)
  moreover from assms have "dropWhile is_space (rev ?d) \<noteq> []" by (simp add: trim_def)
  then have "\<not> is_space (hd (dropWhile is_space (rev ?d)))" by (rule hd_dropWhile)
  then have "\<not> is_space (last (trim s))"
    using assms by (simp add: trim_def last_rev)
  ultimately show ?thesis by simp
qed

lemma normalizeText_normal_form:
  "(\<forall>c \<in> set (normalizeText s). is_lower_az c \<or> is_digit c \<or> c = CHR '' '')
   \<and> (normalizeText s \<noteq> [] \<longrightarrow>
        hd (normalizeText s) \<noteq> CHR '' '' \<and> last (normalizeText s) \<noteq> CHR '' '')"
proof (intro conjI ballI impI)
  fix c assume c: "c \<in> set (normalizeText s)"
  obtain front rest where
    "collapse_ws (replace_non_alnum (toLowerCase s)) = front @ normalizeText s @ rest"
    using trim_split [of "collapse_ws (replace_non_alnum (toLowerCase s))"]
    by (auto simp: normalizeText_def)
  with c have "c \<in> set (collapse_ws (replace_non_alnum (toLowerCase s)))"
    by (metis Un_iff set_append)
  then have "c = CHR '' '' \<or> (c \<in> set (replace_non_alnum (toLowerCase s)) \<and> \<not> is_space c)"
    by (rule collapse_ws_chars)
  then show "is_lower_az c \<or> is_digit c \<or> c = CHR '' ''"
    by (auto dest: replace_non_alnum_chars)
next
  assume "normalizeText s \<noteq> []"
  then have "\<not> is_space (hd (normalizeText s)) \<and> \<not> is_space (last (normalizeText s))"
    unfolding normalizeText_def by (rule trim_ends)
  moreover have "is_space (CHR '' '')" by (simp add: is_space_def)
  ultimately show "hd (normalizeText s) \<noteq> CHR '' ''" "last (normalizeText s) \<noteq> CHR '' ''"
    by auto
qed

subsection \<open>Matching a question to a topic\<close>









subsection \<open>Session restore\<close>

text \<open>
  C2: when the restored tree is not empty and the stored currentNodeId is empty or is not
  a key of the node map, the session is restored with currentNodeId set to the first
  entry of rootIds whenever rootIds is not empty; otherwise (the stored currentNodeId is
  a non-empty key of the node map) the session is restored as it is, currentNodeId
  unchanged. In both cases the restore succeeds.
\<close>

theorem load_session_effect_validates_current:
  assumes "map_size (nodes (tree cached)) > 0"
  shows "if currentNodeId (tree cached) = []
            \<or> \<not> map_has (nodes (tree cached)) (currentNodeId (tree cached))
         then (rootIds (tree cached) \<noteq> [] \<longrightarrow>
                 load_session_effect (Some cached)
                   = Some (cached\<lparr>tree := (tree cached)
                                   \<lparr>currentNodeId := hd (rootIds (tree cached))\<rparr>\<rparr>))
         else load_session_effect (Some cached) = Some cached"
  using assms by (auto simp: load_session_effect_def Let_def split: list.splits)

text \<open>
  The theorem at a session whose stored current node was deleted (reset to the root n1),
  and at the sample session, whose current node n1 is stored (kept).
\<close>

theorem load_session_effect_validates_current_witness:
  "map_size (nodes (tree stale_session)) > 0
   \<and> \<not> map_has (nodes (tree stale_session)) (currentNodeId (tree stale_session))
   \<and> rootIds (tree stale_session) \<noteq> []
   \<and> load_session_effect (Some stale_session)
       = Some (stale_session\<lparr>tree := (tree stale_session)\<lparr>currentNodeId := ''n1''\<rparr>\<rparr>)
   \<and> map_size (nodes (tree sample_session)) > 0
   \<and> map_has (nodes (tree sample_session)) (currentNodeId (tree sample_session))
   \<and> load_session_effect (Some sample_session) = Some sample_session"
proof -
  have s: "map_size (nodes (tree stale_session)) > 0"
    by code_simp
  have c: "\<not> map_has (nodes (tree stale_session)) (currentNodeId (tree stale_session))"
    by code_simp
  have r: "rootIds (tree stale_session) \<noteq> []" "hd (rootIds (tree stale_session)) = ''n1''"
    by code_simp+
  have s': "map_size (nodes (tree sample_session)) > 0"
    by code_simp
  have c': "map_has (nodes (tree sample_session)) (currentNodeId (tree sample_session))"
    "currentNodeId (tree sample_session) \<noteq> []"
    by code_simp+
  from load_session_effect_validates_current [OF s] c r
  have 1: "load_session_effect (Some stale_session)
       = Some (stale_session\<lparr>tree := (tree stale_session)\<lparr>currentNodeId := ''n1''\<rparr>\<rparr>)"
    by simp
  from load_session_effect_validates_current [OF s'] c'
  have 2: "load_session_effect (Some sample_session) = Some sample_session"
    by simp
  from s c r(1) s' c'(1) 1 2 show ?thesis by blast
qed

subsection \<open>Navigation\<close>








subsection \<open>Carousel\<close>









subsection \<open>Search\<close>









subsection \<open>Generation jobs\<close>

lemma map_get_map_set: "map_get (map_set k v m) k' = (if k' = k then Some v else map_get m k')"
  by (simp add: map_get_def map_of_map_set)

lemma on_event_store:
  "store (on_event s j job e) \<noteq> store s \<Longrightarrow>
     map_option job_status (map_get (jobs (on_event s j job e)) j) = Some Completed"
  by (cases e)
     (auto simp: set_job_def map_get_map_set mark_failed_def split: if_splits sum.splits)

lemma on_event_other:
  "j' \<noteq> j \<Longrightarrow> map_get (jobs (on_event s j job e)) j' = map_get (jobs s) j'"
  by (cases e)
     (auto simp: set_job_def map_get_map_set split: if_splits sum.splits)

lemma on_event_completed:
  "job_status job = Completed \<Longrightarrow> jobs (on_event s j job e) = jobs s"
  by (cases e) auto

lemma on_event_results:
  assumes "job_status job \<noteq> Completed \<longrightarrow> resultNodeIds job = []"
    and "map_get (jobs s) j = Some job"
    and "map_get (jobs (on_event s j job e)) j = Some job'"
  shows "job_status job' \<noteq> Completed \<longrightarrow> resultNodeIds job' = []"
  using assms
  by (cases e)
     (auto simp: set_job_def map_get_map_set mark_failed_def split: if_splits sum.splits)

lemma step_other:
  assumes "job_of e \<noteq> j"
  shows "map_get (jobs (step s e)) j = map_get (jobs s) j"
proof (cases "map_get (jobs s) (job_of e)")
  case None
  with assms show ?thesis
    by (cases e) (auto simp: step_def set_job_def map_get_map_set)
next
  case (Some job)
  with assms show ?thesis
    by (simp add: step_def on_event_other)
qed

lemma step_completed:
  assumes "status_of s j = Some Completed"
  shows "status_of (step s e) j = Some Completed"
proof (cases "job_of e = j")
  case True
  from assms obtain job where "map_get (jobs s) j = Some job" "job_status job = Completed"
    by (auto simp: status_of_def)
  with True assms show ?thesis
    by (simp add: step_def status_of_def on_event_completed)
next
  case False
  with assms show ?thesis by (simp add: status_of_def step_other)
qed

lemma step_frame:
  assumes "job_of e = j" and "status_of (step s e) j \<noteq> Some Completed"
  shows "store (step s e) = store s"
proof (cases "map_get (jobs s) j")
  case None
  with assms(1) show ?thesis
    by (cases e) (auto simp: step_def set_job_def)
next
  case (Some job)
  with assms have "map_option job_status (map_get (jobs (on_event s j job e)) j) \<noteq> Some Completed"
    by (simp add: step_def status_of_def)
  then have "store (on_event s j job e) = store s"
    using on_event_store by blast
  with Some assms(1) show ?thesis by (simp add: step_def)
qed

lemma step_same:
  assumes "store a = store b" and "map_get (jobs a) (job_of e) = map_get (jobs b) (job_of e)"
  shows "store (step a e) = store (step b e)
       \<and> map_get (jobs (step a e)) (job_of e) = map_get (jobs (step b e)) (job_of e)"
proof (cases "map_get (jobs a) (job_of e)")
  case None
  with assms show ?thesis
    by (cases e) (auto simp: step_def set_job_def map_get_map_set)
next
  case (Some job)
  with assms show ?thesis
    by (cases e)
       (auto simp: step_def set_job_def map_get_map_set split: if_splits sum.splits)
qed

lemma run_snoc: "run s (evs @ [e]) = step (run s evs) e"
  by (simp add: run_def)

lemma run_completed:
  "status_of (run s evs) j = Some Completed \<Longrightarrow> status_of (run s (evs @ evs')) j = Some Completed"
proof (induction evs' rule: rev_induct)
  case Nil
  then show ?case by simp
next
  case (snoc e evs')
  then have "status_of (run s (evs @ evs')) j = Some Completed" by simp
  then have "status_of (step (run s (evs @ evs')) e) j = Some Completed"
    by (rule step_completed)
  then show ?case by (simp add: run_def)
qed

lemma run_without_job:
  "status_of (run s evs) j \<noteq> Some Completed \<Longrightarrow>
     store (run s evs) = store (run s (filter (\<lambda>e. job_of e \<noteq> j) evs))
     \<and> (\<forall>j'. j' \<noteq> j \<longrightarrow>
           map_get (jobs (run s evs)) j'
             = map_get (jobs (run s (filter (\<lambda>e. job_of e \<noteq> j) evs))) j')"
proof (induction evs rule: rev_induct)
  case Nil
  then show ?case by simp
next
  case (snoc e evs)
  let ?a = "run s evs" and ?b = "run s (filter (\<lambda>e. job_of e \<noteq> j) evs)"
  from snoc.prems have after: "status_of (step ?a e) j \<noteq> Some Completed"
    by (simp add: run_snoc)
  then have "status_of ?a j \<noteq> Some Completed"
    using step_completed by blast
  from snoc.IH [OF this] have st: "store ?a = store ?b"
    and jb: "\<And>j'. j' \<noteq> j \<Longrightarrow> map_get (jobs ?a) j' = map_get (jobs ?b) j'"
    by blast+
  show ?case
  proof (cases "job_of e = j")
    case True
    from step_frame [OF True after] st have "store (step ?a e) = store ?b" by simp
    moreover from True have "\<And>j'. j' \<noteq> j \<Longrightarrow> map_get (jobs (step ?a e)) j' = map_get (jobs ?a) j'"
      by (simp add: step_other)
    ultimately show ?thesis using True jb by (simp add: run_snoc)
  next
    case False
    from jb [OF False] have "map_get (jobs ?a) (job_of e) = map_get (jobs ?b) (job_of e)" .
    from step_same [OF st this]
    have 1: "store (step ?a e) = store (step ?b e)"
      and 2: "map_get (jobs (step ?a e)) (job_of e) = map_get (jobs (step ?b e)) (job_of e)"
      by blast+
    have "map_get (jobs (step ?a e)) j' = map_get (jobs (step ?b e)) j'" if "j' \<noteq> j" for j'
    proof (cases "j' = job_of e")
      case True
      with 2 show ?thesis by simp
    next
      case False
      with jb [OF that] show ?thesis by (simp add: step_other)
    qed
    with 1 False show ?thesis by (simp add: run_snoc)
  qed
qed

lemma step_results:
  assumes "case map_get (jobs s) j of None \<Rightarrow> True
           | Some job \<Rightarrow> job_status job \<noteq> Completed \<longrightarrow> resultNodeIds job = []"
  shows "case map_get (jobs (step s e)) j of None \<Rightarrow> True
         | Some job \<Rightarrow> job_status job \<noteq> Completed \<longrightarrow> resultNodeIds job = []"
proof (cases "job_of e = j")
  case False
  with assms show ?thesis by (simp add: step_other)
next
  case True
  show ?thesis
  proof (cases "map_get (jobs s) j")
    case None
    with True show ?thesis
      by (cases e) (auto simp: step_def set_job_def map_get_map_set)
  next
    case (Some job)
    with assms have "job_status job \<noteq> Completed \<longrightarrow> resultNodeIds job = []" by simp
    from on_event_results [OF this Some] Some True show ?thesis
      by (auto simp: step_def split: option.splits)
  qed
qed

lemma run_results:
  assumes "case map_get (jobs s) j of None \<Rightarrow> True
           | Some job \<Rightarrow> job_status job \<noteq> Completed \<longrightarrow> resultNodeIds job = []"
  shows "case map_get (jobs (run s evs)) j of None \<Rightarrow> True
         | Some job \<Rightarrow> job_status job \<noteq> Completed \<longrightarrow> resultNodeIds job = []"
proof (induction evs rule: rev_induct)
  case Nil
  from assms show ?case by (simp add: run_def)
next
  case (snoc e evs)
  from step_results [OF snoc] show ?case by (simp add: run_snoc)
qed

text \<open>
  C1: if a generation job is in the failed state at the end of a history of events
  (after an error of the service, a failed commit or a cancellation), the tree at the end
  is the tree that the same history without the events of this job produces, as if the
  job had never been submitted; when the history consists of events of this job only,
  the tree at the end is the tree from before the submission (the same node map and
  rootIds, hence every node with its parentId, childIds and branchIndex); and a job that
  was not known before the history has committed no node.
\<close>

theorem failed_job_leaves_tree_unchanged:
  assumes "status_of (run s evs) j = Some Failed"
  shows "store (run s evs) = store (run s (filter (\<lambda>e. job_of e \<noteq> j) evs))
       \<and> ((\<forall>e \<in> set evs. job_of e = j) \<longrightarrow> store (run s evs) = store s)
       \<and> (\<not> map_has (jobs s) j \<longrightarrow> results_of (run s evs) j = [])"
proof -
  from assms have n: "status_of (run s evs) j \<noteq> Some Completed" by simp
  from run_without_job [OF n]
  have 1: "store (run s evs) = store (run s (filter (\<lambda>e. job_of e \<noteq> j) evs))"
    by blast
  have 2: "store (run s evs) = store s" if "\<forall>e \<in> set evs. job_of e = j"
  proof -
    from that have "filter (\<lambda>e. job_of e \<noteq> j) evs = []" by (simp add: filter_empty_conv)
    with 1 show ?thesis by (simp add: run_def)
  qed
  have 3: "results_of (run s evs) j = []" if "\<not> map_has (jobs s) j"
  proof -
    from that have "map_get (jobs s) j = None" by (simp add: map_has_def map_get_def)
    then have "case map_get (jobs s) j of None \<Rightarrow> True
           | Some job \<Rightarrow> job_status job \<noteq> Completed \<longrightarrow> resultNodeIds job = []"
      by simp
    from run_results [OF this, of evs] assms show ?thesis
      by (auto simp: results_of_def status_of_def split: option.splits)
  qed
  from 1 2 3 show ?thesis by blast
qed

text \<open>
  The theorem at three histories of job 1 on the sample tree. After the service failed
  following two progress events, and after a commit that failed at its second descriptor,
  the tree is the one that job 2 alone produces. After a cancellation, with no other job
  around, the tree is the initial tree, even though the service delivered a result later.
\<close>

theorem failed_job_leaves_tree_unchanged_witness:
  "status_of (run sample_orchestrator service_failure_history) 1 = Some Failed
   \<and> store (run sample_orchestrator service_failure_history)
       = store (run sample_orchestrator (filter (\<lambda>e. job_of e \<noteq> 1) service_failure_history))
   \<and> results_of (run sample_orchestrator service_failure_history) 1 = []
   \<and> status_of (run sample_orchestrator commit_failure_history) 1 = Some Failed
   \<and> store (run sample_orchestrator commit_failure_history)
       = store (run sample_orchestrator (filter (\<lambda>e. job_of e \<noteq> 1) commit_failure_history))
   \<and> results_of (run sample_orchestrator commit_failure_history) 1 = []
   \<and> status_of (run sample_orchestrator cancelled_history) 1 = Some Failed
   \<and> store (run sample_orchestrator cancelled_history) = store sample_orchestrator
   \<and> results_of (run sample_orchestrator cancelled_history) 1 = []"
proof -
  have a: "status_of (run sample_orchestrator service_failure_history) 1 = Some Failed"
    by code_simp
  have b: "status_of (run sample_orchestrator commit_failure_history) 1 = Some Failed"
    by code_simp
  have c: "status_of (run sample_orchestrator cancelled_history) 1 = Some Failed"
    by code_simp
  have n: "\<not> map_has (jobs sample_orchestrator) 1"
    by code_simp
  have o: "\<forall>e \<in> set cancelled_history. job_of e = 1"
    by code_simp
  from failed_job_leaves_tree_unchanged [OF a] n
  have 1: "store (run sample_orchestrator service_failure_history)
       = store (run sample_orchestrator (filter (\<lambda>e. job_of e \<noteq> 1) service_failure_history))
     \<and> results_of (run sample_orchestrator service_failure_history) 1 = []"
    by blast
  from failed_job_leaves_tree_unchanged [OF b] n
  have 2: "store (run sample_orchestrator commit_failure_history)
       = store (run sample_orchestrator (filter (\<lambda>e. job_of e \<noteq> 1) commit_failure_history))
     \<and> results_of (run sample_orchestrator commit_failure_history) 1 = []"
    by blast
  from failed_job_leaves_tree_unchanged [OF c] n o
  have 3: "store (run sample_orchestrator cancelled_history) = store sample_orchestrator
     \<and> results_of (run sample_orchestrator cancelled_history) 1 = []"
    by blast
  from a b c 1 2 3 show ?thesis by blast
qed

end
